theory Spec2Isabelle
  imports Main
begin

section \<open>Python values used by the contact directory\<close>

text \<open>
  The program handles three kinds of plain values: \<open>None\<close>, strings and naive
  \<open>datetime\<close> objects. A string is a list of code points; the model covers the code
  points below 256. Every exception the program can raise is a constructor of \<open>error\<close>.
\<close>

record datetime =
  year :: nat
  month :: nat
  day :: nat
  hour :: nat
  minute :: nat
  second :: nat
  microsecond :: nat

datatype pyval = PNone | PStr string | PDatetime datetime

datatype error =
  TypeError | AttributeError | ValueError | KeyError | IndexError | RuntimeError | StopIteration

text \<open>Truth value of a plain value, as \<open>if value:\<close> tests it.\<close>

fun truthy :: "pyval \<Rightarrow> bool" where
  "truthy PNone = False"
| "truthy (PStr s) = (s \<noteq> [])"
| "truthy (PDatetime d) = True"

text \<open>
  \<open>str.isdigit\<close> on one code point below 256: the decimal digits and the three
  superscript digits U+00B2, U+00B3 and U+00B9.
\<close>

definition isdigit :: "char \<Rightarrow> bool" where
  "isdigit c = (let n = (of_char c :: nat) in (48 \<le> n \<and> n \<le> 57) \<or> n = 178 \<or> n = 179 \<or> n = 185)"

section \<open>The calendar of the datetime module\<close>

definition is_leap :: "nat \<Rightarrow> bool" where
  "is_leap y = (y mod 4 = 0 \<and> (y mod 100 \<noteq> 0 \<or> y mod 400 = 0))"

definition days_in_month :: "nat \<Rightarrow> nat \<Rightarrow> nat" where
  "days_in_month y m =
     (if m = 2 then (if is_leap y then 29 else 28)
      else if m = 4 \<or> m = 6 \<or> m = 9 \<or> m = 11 then 30 else 31)"

text \<open>
  \<open>datetime(y, m, d)\<close>: the constructor raises \<open>ValueError\<close> for a year outside
  1..9999, a month outside 1..12 and a day the month does not have in that year.
\<close>

definition datetime_new :: "nat \<Rightarrow> nat \<Rightarrow> nat \<Rightarrow> error + datetime" where
  "datetime_new y m d =
     (if 1 \<le> y \<and> y \<le> 9999 \<and> 1 \<le> m \<and> m \<le> 12 \<and> 1 \<le> d \<and> d \<le> days_in_month y m
      then Inr \<lparr>year = y, month = m, day = d, hour = 0, minute = 0, second = 0, microsecond = 0\<rparr>
      else Inl ValueError)"

definition days_before_year :: "nat \<Rightarrow> int" where
  "days_before_year y =
     (let p = int y - 1 in p * 365 + p div 4 - p div 100 + p div 400)"

definition days_before_month :: "nat \<Rightarrow> nat \<Rightarrow> int" where
  "days_before_month y m = int (sum_list (map (days_in_month y) [1..<m]))"

definition toordinal :: "datetime \<Rightarrow> int" where
  "toordinal t = days_before_year (year t) + days_before_month (year t) (month t) + int (day t)"

text \<open>Microseconds since the start of day 0 of the proleptic Gregorian calendar.\<close>

definition to_microseconds :: "datetime \<Rightarrow> int" where
  "to_microseconds t =
     (((toordinal t * 24 + int (hour t)) * 60 + int (minute t)) * 60 + int (second t)) * 1000000
       + int (microsecond t)"

text \<open>\<open>a > b\<close> on naive datetimes compares the seven components in order.\<close>

fun lex_gt :: "nat list \<Rightarrow> nat list \<Rightarrow> bool" where
  "lex_gt (x # xs) (y # ys) = (x > y \<or> (x = y \<and> lex_gt xs ys))"
| "lex_gt _ _ = False"

definition components :: "datetime \<Rightarrow> nat list" where
  "components t = [year t, month t, day t, hour t, minute t, second t, microsecond t]"

definition datetime_gt :: "datetime \<Rightarrow> datetime \<Rightarrow> bool" where
  "datetime_gt a b = lex_gt (components a) (components b)"

text \<open>
  \<open>(a - b).days\<close>: a \<open>timedelta\<close> is normalised so that its seconds and microseconds
  are non-negative, hence \<open>days\<close> is the floor of the difference in days.
\<close>

definition timedelta_days :: "datetime \<Rightarrow> datetime \<Rightarrow> int" where
  "timedelta_days a b = (to_microseconds a - to_microseconds b) div (86400 * 1000000)"

section \<open>Fields\<close>

text \<open>
  A field object has an identity, the class that decides which \<open>valid_value\<close> runs,
  and the private attribute \<open>__value\<close>, \<open>None\<close> until a value passes validation.
\<close>

datatype field_class = Field | Name | Phone | Birthday

record field_obj =
  ident :: nat
  cls :: field_class
  field_value :: pyval

text \<open>\<open>Field.valid_value\<close>, inherited by \<open>Name\<close>.\<close>

definition Field_valid_value :: "pyval \<Rightarrow> error + bool" where
  "Field_valid_value v = (if truthy v then Inr True else Inr False)"

text \<open>
  \<open>Phone.valid_value\<close>: \<open>filter(str.isdigit, value)\<close> raises \<open>TypeError\<close> on a value
  that is not iterable.
\<close>

fun Phone_valid_value :: "pyval \<Rightarrow> error + bool" where
  "Phone_valid_value (PStr s) =
     (let phone = filter isdigit s
      in if 8 < length phone \<and> length phone < 13 \<and> length s < 20 then Inr True else Inr False)"
| "Phone_valid_value PNone = Inl TypeError"
| "Phone_valid_value (PDatetime d) = Inl TypeError"

text \<open>\<open>Birthday.valid_value\<close>; the first argument is what \<open>datetime.now()\<close> returns.\<close>

fun Birthday_valid_value :: "datetime \<Rightarrow> pyval \<Rightarrow> error + bool" where
  "Birthday_valid_value now (PDatetime b) =
     (if 0 < int (year now) - int (year b) \<and> int (year now) - int (year b) \<le> 100
      then Inr True else Inr False)"
| "Birthday_valid_value now _ = Inr False"

fun valid_value :: "field_class \<Rightarrow> datetime \<Rightarrow> pyval \<Rightarrow> error + bool" where
  "valid_value Field now v = Field_valid_value v"
| "valid_value Name now v = Field_valid_value v"
| "valid_value Phone now v = Phone_valid_value v"
| "valid_value Birthday now v = Birthday_valid_value now v"

text \<open>The setter of the \<open>value\<close> property.\<close>

definition set_value :: "datetime \<Rightarrow> field_obj \<Rightarrow> pyval \<Rightarrow> error + field_obj" where
  "set_value now f v =
     (case valid_value (cls f) now v of
        Inl e \<Rightarrow> Inl e
      | Inr ok \<Rightarrow> if ok then Inr (f\<lparr>field_value := v\<rparr>) else Inr f)"

text \<open>\<open>Field.__init__\<close> for a new object of class \<open>c\<close> with identity \<open>i\<close>.\<close>

definition Field_init :: "field_class \<Rightarrow> nat \<Rightarrow> datetime \<Rightarrow> pyval \<Rightarrow> error + field_obj" where
  "Field_init c i now v = set_value now \<lparr>ident = i, cls = c, field_value = PNone\<rparr> v"

text \<open>
  The object after the statement \<open>f.value = v\<close>, whether it completed or raised: the
  setter raises before it stores anything, so a raising assignment leaves the object as
  it was.
\<close>

definition assign :: "field_obj \<Rightarrow> datetime \<times> pyval \<Rightarrow> field_obj" where
  "assign f a = (case set_value (fst a) f (snd a) of Inl e \<Rightarrow> f | Inr g \<Rightarrow> g)"

text \<open>
  A sequence of attempts on one object, starting with the one of the constructor; each
  attempt carries the clock reading at that moment.
\<close>

definition attempts :: "field_class \<Rightarrow> nat \<Rightarrow> (datetime \<times> pyval) list \<Rightarrow> field_obj" where
  "attempts c i as = foldl assign \<lparr>ident = i, cls = c, field_value = PNone\<rparr> as"

section \<open>Records\<close>

text \<open>
  Python does not check the annotations of \<open>Record\<close>'s methods, so an argument is any
  object: a field object, or a plain value, which has no \<open>value\<close> attribute.
\<close>

datatype pyobj = Obj field_obj | Val pyval

text \<open>\<open>obj.value\<close>\<close>

fun getattr_value :: "pyobj \<Rightarrow> error + pyval" where
  "getattr_value (Obj f) = Inr (field_value f)"
| "getattr_value (Val v) = Inl AttributeError"

text \<open>
  The truth value of an object: the field classes define neither \<open>__bool__\<close> nor
  \<open>__len__\<close>, so every field object is true, whatever it holds.
\<close>

fun py_bool :: "pyobj \<Rightarrow> bool" where
  "py_bool (Obj f) = True"
| "py_bool (Val v) = truthy v"

record record_obj =
  name :: pyobj
  phones :: "pyobj list"
  birthday :: pyobj

text \<open>\<open>Record.__init__\<close>; an argument left out is \<open>Val PNone\<close>.\<close>

definition Record_init :: "pyobj \<Rightarrow> pyobj \<Rightarrow> pyobj \<Rightarrow> record_obj" where
  "Record_init nm phone bd =
     \<lparr>name = nm, phones = (if py_bool phone then [] @ [phone] else []), birthday = bd\<rparr>"

text \<open>\<open>.month\<close> and \<open>.day\<close> of a plain value.\<close>

fun getattr_month :: "pyval \<Rightarrow> error + nat" where
  "getattr_month (PDatetime d) = Inr (month d)"
| "getattr_month _ = Inl AttributeError"

fun getattr_day :: "pyval \<Rightarrow> error + nat" where
  "getattr_day (PDatetime d) = Inr (day d)"
| "getattr_day _ = Inl AttributeError"

text \<open>
  \<open>Record.days_to_birthday\<close>; \<open>current_date\<close> is what \<open>datetime.now()\<close> returns, with
  its time of day.
\<close>

definition days_to_birthday :: "datetime \<Rightarrow> record_obj \<Rightarrow> error + int option" where
  "days_to_birthday current_date r =
     (if py_bool (birthday r) then
        (case getattr_value (birthday r) of Inl e \<Rightarrow> Inl e | Inr b \<Rightarrow>
        (case getattr_month b of Inl e \<Rightarrow> Inl e | Inr m \<Rightarrow>
        (case getattr_day b of Inl e \<Rightarrow> Inl e | Inr d \<Rightarrow>
        (case datetime_new (year current_date) m d of Inl e \<Rightarrow> Inl e | Inr this_year \<Rightarrow>
           if datetime_gt current_date this_year then
             (case datetime_new (year current_date + 1) m d of Inl e \<Rightarrow> Inl e
              | Inr next_year \<Rightarrow> Inr (Some (timedelta_days next_year current_date)))
           else Inr (Some (timedelta_days this_year current_date))))))
      else Inr None)"

text \<open>\<open>Record.add_phone\<close>: the body of the \<open>try\<close>, then the \<open>except AttributeError\<close>.\<close>

definition add_phone_body :: "record_obj \<Rightarrow> pyobj \<Rightarrow> error + record_obj" where
  "add_phone_body r phone =
     (case getattr_value phone of Inl e \<Rightarrow> Inl e
      | Inr v \<Rightarrow> if truthy v then Inr (r\<lparr>phones := phones r @ [phone]\<rparr>) else Inr r)"

definition add_phone :: "record_obj \<Rightarrow> pyobj \<Rightarrow> error + record_obj" where
  "add_phone r phone =
     (case add_phone_body r phone of
        Inl e \<Rightarrow> if e = AttributeError then Inr r else Inl e
      | Inr r' \<Rightarrow> Inr r')"

text \<open>
  \<open>Record.remove_phone\<close>. The \<open>for\<close> loop reads the list by a running index while the
  body removes from the same list. \<open>list.remove(x)\<close> deletes the first element that is
  \<open>x\<close> or equals it; a field object equals only itself, and two entries with one
  identity are the same object, so this is \<open>remove1\<close>.
\<close>

function remove_loop :: "pyobj \<Rightarrow> nat \<Rightarrow> pyobj list \<Rightarrow> error + pyobj list" where
  "remove_loop phone i xs =
     (if i < length xs then
        (case getattr_value phone of Inl e \<Rightarrow> Inl e | Inr v \<Rightarrow>
        (case getattr_value (xs ! i) of Inl e \<Rightarrow> Inl e | Inr w \<Rightarrow>
           if v = w then remove_loop phone (i + 1) (remove1 (xs ! i) xs)
           else remove_loop phone (i + 1) xs))
      else Inr xs)"
  by pat_completeness auto
termination
  by (relation "measure (\<lambda>(phone, i, xs). length xs - i)") (auto simp: length_remove1)

declare remove_loop.simps [simp del]

definition remove_phone :: "record_obj \<Rightarrow> pyobj \<Rightarrow> error + record_obj" where
  "remove_phone r phone =
     (case remove_loop phone 0 (phones r) of Inl e \<Rightarrow> Inl e | Inr xs \<Rightarrow> Inr (r\<lparr>phones := xs\<rparr>))"

text \<open>\<open>Record.edit_phone\<close>: \<open>enumerate\<close> walks the list that the body assigns into.\<close>

function edit_loop :: "pyobj \<Rightarrow> pyobj \<Rightarrow> nat \<Rightarrow> pyobj list \<Rightarrow> error + pyobj list" where
  "edit_loop old_phone new_phone idx xs =
     (if idx < length xs then
        (case getattr_value old_phone of Inl e \<Rightarrow> Inl e | Inr v \<Rightarrow>
        (case getattr_value (xs ! idx) of Inl e \<Rightarrow> Inl e | Inr w \<Rightarrow>
           if v = w then edit_loop old_phone new_phone (idx + 1) (xs[idx := new_phone])
           else edit_loop old_phone new_phone (idx + 1) xs))
      else Inr xs)"
  by pat_completeness auto
termination
  by (relation "measure (\<lambda>(old_phone, new_phone, idx, xs). length xs - idx)") auto

declare edit_loop.simps [simp del]

definition edit_phone :: "record_obj \<Rightarrow> pyobj \<Rightarrow> pyobj \<Rightarrow> error + record_obj" where
  "edit_phone r old_phone new_phone =
     (case edit_loop old_phone new_phone 0 (phones r) of
        Inl e \<Rightarrow> Inl e | Inr xs \<Rightarrow> Inr (r\<lparr>phones := xs\<rparr>))"

section \<open>The address book\<close>

text \<open>
  \<open>AddressBook\<close> is a \<open>UserDict\<close>: \<open>data\<close> is a dictionary, which keeps its keys in
  insertion order, so it is an association list with one entry for each key.
  \<open>keys_iter\<close> is the attribute that \<open>__iter__\<close> creates.
\<close>

type_synonym dict = "(pyval \<times> record_obj) list"

text \<open>
  An iterator over the keys of a dictionary: the size of the dictionary when the
  iterator was made and the position reached, or finished for good.
\<close>

datatype dictiter = Iterating nat nat | Finished

record address_book =
  data :: dict
  keys_iter :: "dictiter option"


text \<open>\<open>d[k] = r\<close>: a key already present keeps its place.\<close>

definition dict_setitem :: "dict \<Rightarrow> pyval \<Rightarrow> record_obj \<Rightarrow> dict" where
  "dict_setitem d k r =
     (if k \<in> set (map fst d) then map (\<lambda>kv. if fst kv = k then (k, r) else kv) d
      else d @ [(k, r)])"

definition add_record :: "address_book \<Rightarrow> record_obj \<Rightarrow> error + address_book" where
  "add_record ab r =
     (case getattr_value (name r) of Inl e \<Rightarrow> Inl e
      | Inr k \<Rightarrow> Inr (ab\<lparr>data := dict_setitem (data ab) k r\<rparr>))"

subsection \<open>Search\<close>

datatype search_result = PhoneValues "pyval list" | ContactName pyval

text \<open>\<open>list(map(lambda x: x.value, record.phones))\<close>\<close>

fun values_of :: "pyobj list \<Rightarrow> error + pyval list" where
  "values_of [] = Inr []"
| "values_of (x # xs) =
     (case getattr_value x of Inl e \<Rightarrow> Inl e | Inr v \<Rightarrow>
     (case values_of xs of Inl e \<Rightarrow> Inl e | Inr vs \<Rightarrow> Inr (v # vs)))"

text \<open>The loop of the \<open>Name\<close> branch; the last argument is the variable \<open>results\<close>.\<close>

fun search_by_name :: "pyval \<Rightarrow> dict \<Rightarrow> search_result option \<Rightarrow> error + search_result option" where
  "search_by_name v [] results = Inr results"
| "search_by_name v ((k, r) # rest) results =
     (if v = k then
        (case values_of (phones r) of Inl e \<Rightarrow> Inl e
         | Inr vs \<Rightarrow> search_by_name v rest (Some (PhoneValues vs)))
      else search_by_name v rest results)"

text \<open>The two nested loops of the \<open>Phone\<close> branch.\<close>

fun scan_phones :: "pyval \<Rightarrow> pyval \<Rightarrow> pyobj list \<Rightarrow> search_result option \<Rightarrow> error + search_result option" where
  "scan_phones v k [] results = Inr results"
| "scan_phones v k (p # ps) results =
     (case getattr_value p of Inl e \<Rightarrow> Inl e
      | Inr w \<Rightarrow> scan_phones v k ps (if v = w then Some (ContactName k) else results))"

fun search_by_phone :: "pyval \<Rightarrow> dict \<Rightarrow> search_result option \<Rightarrow> error + search_result option" where
  "search_by_phone v [] results = Inr results"
| "search_by_phone v ((k, r) # rest) results =
     (case scan_phones v k (phones r) results of Inl e \<Rightarrow> Inl e
      | Inr res \<Rightarrow> search_by_phone v rest res)"

definition search :: "address_book \<Rightarrow> pyobj \<Rightarrow> error + search_result option" where
  "search ab search_obj =
     (case search_obj of
        Obj f \<Rightarrow>
          if cls f = Name then search_by_name (field_value f) (data ab) None
          else if cls f = Phone then search_by_phone (field_value f) (data ab) None
          else Inr None
      | Val v \<Rightarrow> Inr None)"

subsection \<open>Pages\<close>

definition dunder_iter :: "address_book \<Rightarrow> address_book" where
  "dunder_iter ab = ab\<lparr>keys_iter := Some (Iterating (length (data ab)) 0)\<rparr>"

text \<open>
  \<open>next\<close> on a key iterator: \<open>RuntimeError\<close> when the dictionary changed size, the
  next key, or \<open>StopIteration\<close>, after which the iterator stays finished.
\<close>

fun dictiter_next :: "dict \<Rightarrow> dictiter \<Rightarrow> (error + pyval) \<times> dictiter" where
  "dictiter_next d Finished = (Inl StopIteration, Finished)"
| "dictiter_next d (Iterating used pos) =
     (if used \<noteq> length d then (Inl RuntimeError, Iterating used pos)
      else if pos < length d then (Inr (fst (d ! pos)), Iterating used (pos + 1))
      else (Inl StopIteration, Finished))"

text \<open>
  The \<open>for _ in range(n)\<close> loop of \<open>__next__\<close>. It returns the exception that ended
  it, if any, with the items gathered so far and the iterator. \<open>self.keys_iter\<close> does
  not exist before \<open>__iter__\<close> has run.
\<close>

fun take_keys :: "nat \<Rightarrow> dict \<Rightarrow> dictiter option \<Rightarrow> dict \<Rightarrow> error option \<times> dict \<times> dictiter option" where
  "take_keys 0 d it items = (None, items, it)"
| "take_keys (Suc n) d None items = (Some AttributeError, items, None)"
| "take_keys (Suc n) d (Some it) items =
     (case dictiter_next d it of
        (Inl e, it') \<Rightarrow> (Some e, items, Some it')
      | (Inr k, it') \<Rightarrow>
          (case map_of d k of
             None \<Rightarrow> (Some KeyError, items, Some it')
           | Some r \<Rightarrow> take_keys n d (Some it') (items @ [(k, r)])))"

subsection \<open>The layout of a page\<close>

datatype align = AlignLeft | AlignRight | AlignCenter

definition align_str :: "align \<Rightarrow> nat \<Rightarrow> string \<Rightarrow> string" where
  "align_str a w s =
     (let total = w - length s;
          l = (case a of AlignLeft \<Rightarrow> 0 | AlignRight \<Rightarrow> total | AlignCenter \<Rightarrow> total div 2)
      in replicate l (CHR '' '') @ s @ replicate (total - l) (CHR '' ''))"

definition two_digits :: "nat \<Rightarrow> string" where
  "two_digits n = [''0123456789'' ! (n div 10 mod 10), ''0123456789'' ! (n mod 10)]"

text \<open>A number in decimal digits, without padding.\<close>

fun decimal :: "nat \<Rightarrow> string" where
  "decimal n =
     (if n < 10 then [''0123456789'' ! n]
      else decimal (n div 10) @ [''0123456789'' ! (n mod 10)])"

declare decimal.simps [simp del]

text \<open>
  One replacement field \<open>{:<w}\<close>, \<open>{:>w}\<close> or \<open>{:^w}\<close> applied to a value. \<open>None\<close>
  rejects a format specification with \<open>TypeError\<close>; a \<open>datetime\<close> hands it to
  \<open>strftime\<close>, which copies a text without directives.
\<close>

fun py_format :: "align \<Rightarrow> nat \<Rightarrow> pyval \<Rightarrow> error + string" where
  "py_format a w (PStr s) = Inr (align_str a w s)"
| "py_format a w PNone = Inl TypeError"
| "py_format a w (PDatetime d) =
     Inr ((case a of AlignLeft \<Rightarrow> CHR ''<'' | AlignRight \<Rightarrow> CHR ''>'' | AlignCenter \<Rightarrow> CHR ''^'')
          # two_digits w)"

text \<open>\<open>template.format(args)\<close> for a template of literal text and replacement fields.\<close>

datatype piece = Lit string | Fld align nat

fun str_format :: "piece list \<Rightarrow> pyval list \<Rightarrow> error + string" where
  "str_format [] args = Inr []"
| "str_format (Lit s # ps) args =
     (case str_format ps args of Inl e \<Rightarrow> Inl e | Inr rest \<Rightarrow> Inr (s @ rest))"
| "str_format (Fld a w # ps) [] = Inl IndexError"
| "str_format (Fld a w # ps) (v # vs) =
     (case py_format a w v of Inl e \<Rightarrow> Inl e | Inr t \<Rightarrow>
     (case str_format ps vs of Inl e \<Rightarrow> Inl e | Inr rest \<Rightarrow> Inr (t @ rest)))"

definition newline :: string where
  "newline = [CHR 0x0A]"

definition rule_line :: string where
  "rule_line = replicate 70 (CHR ''-'') @ newline"

definition header_template :: "piece list" where
  "header_template =
     [Lit ''|'', Fld AlignCenter 33, Lit ''|'', Fld AlignCenter 20, Lit ''|'',
      Fld AlignCenter 13, Lit (''|'' @ newline)]"

definition first_row_template :: "piece list" where
  "first_row_template =
     [Lit ''| '', Fld AlignLeft 32, Lit ''|'', Fld AlignRight 19, Lit '' |'',
      Fld AlignCenter 13, Lit (''|'' @ newline)]"

definition other_row_template :: "piece list" where
  "other_row_template =
     [Lit ''|'', Fld AlignLeft 33, Lit ''|'', Fld AlignRight 19, Lit '' |'',
      Fld AlignCenter 13, Lit (''|'' @ newline)]"

text \<open>
  \<open>value.strftime("%d.%m.%Yp")\<close>: \<open>%d\<close> and \<open>%m\<close> are padded to two digits;
  \<open>%Y\<close> is the year as the C library of Linux prints it, without padding.
\<close>

fun strftime :: "pyval \<Rightarrow> error + string" where
  "strftime (PDatetime d) =
     Inr (two_digits (day d) @ ''.'' @ two_digits (month d) @ ''.'' @ decimal (year d) @ ''p'')"
| "strftime _ = Inl AttributeError"

definition birthday_text :: "record_obj \<Rightarrow> error + string" where
  "birthday_text user =
     (if py_bool (birthday user) then
        (case getattr_value (birthday user) of Inl e \<Rightarrow> Inl e | Inr b \<Rightarrow> strftime b)
      else Inr [])"

text \<open>The loop \<open>for i in range(len(user.phones))\<close>, from index \<open>i\<close> on.\<close>

fun phone_rows :: "pyval \<Rightarrow> string \<Rightarrow> nat \<Rightarrow> pyobj list \<Rightarrow> error + string" where
  "phone_rows nm bd i [] = Inr []"
| "phone_rows nm bd i (p # ps) =
     (case getattr_value p of Inl e \<Rightarrow> Inl e | Inr v \<Rightarrow>
     (case (if i = 0 then str_format first_row_template [nm, v, PStr bd]
            else str_format other_row_template [PStr '' '', v, PStr '' '']) of
        Inl e \<Rightarrow> Inl e | Inr row \<Rightarrow>
     (case phone_rows nm bd (i + 1) ps of Inl e \<Rightarrow> Inl e | Inr rest \<Rightarrow> Inr (row @ rest))))"

text \<open>The loop \<open>for name, user in items\<close>.\<close>

fun format_items :: "dict \<Rightarrow> error + string" where
  "format_items [] = Inr []"
| "format_items ((nm, user) # rest) =
     (case birthday_text user of Inl e \<Rightarrow> Inl e | Inr bd \<Rightarrow>
     (case phone_rows nm bd 0 (phones user) of Inl e \<Rightarrow> Inl e | Inr rows \<Rightarrow>
     (case (if phones user = [] then str_format first_row_template [nm, PStr '' '', PStr bd]
            else Inr []) of
        Inl e \<Rightarrow> Inl e | Inr no_phone_row \<Rightarrow>
     (case format_items rest of Inl e \<Rightarrow> Inl e
      | Inr others \<Rightarrow> Inr (rows @ no_phone_row @ rule_line @ others)))))"

definition format_page :: "dict \<Rightarrow> error + string" where
  "format_page items =
     (case str_format header_template [PStr ''User'', PStr ''Phones'', PStr ''Birthday''] of
        Inl e \<Rightarrow> Inl e | Inr header \<Rightarrow>
     (case format_items items of Inl e \<Rightarrow> Inl e
      | Inr body \<Rightarrow> Inr (rule_line @ header @ rule_line @ body)))"

text \<open>
  \<open>AddressBook.__next__\<close>. The result comes with the address book, whose iterator has
  moved on also when the call raises.
\<close>

definition dunder_next :: "int \<Rightarrow> address_book \<Rightarrow> (error + string) \<times> address_book" where
  "dunder_next n ab =
     (case take_keys (nat n) (data ab) (keys_iter ab) [] of
        (raised, items, it) \<Rightarrow>
          (case raised of
             None \<Rightarrow> (format_page items, ab\<lparr>keys_iter := it\<rparr>)
           | Some e \<Rightarrow>
               if e = StopIteration then
                 (if items = [] then (Inl StopIteration, ab\<lparr>keys_iter := it\<rparr>)
                  else (format_page items, ab\<lparr>keys_iter := it\<rparr>))
               else (Inl e, ab\<lparr>keys_iter := it\<rparr>)))"

text \<open>The module constant \<open>N\<close>, the default page size.\<close>

definition N :: int where
  "N = 10"

section \<open>Notions used to state the properties\<close>





text \<open>An attempt is accepted when the validation of the class returns \<open>True\<close> for it.\<close>

definition accepted :: "field_class \<Rightarrow> datetime \<times> pyval \<Rightarrow> bool" where
  "accepted c a = (valid_value c (fst a) (snd a) = Inr True)"

definition last_accepted :: "field_class \<Rightarrow> (datetime \<times> pyval) list \<Rightarrow> pyval" where
  "last_accepted c as = (case filter (accepted c) (rev as) of [] \<Rightarrow> PNone | a # _ \<Rightarrow> snd a)"

text \<open>An object that is a field, and the values held by the fields of a phone list.\<close>

fun is_field :: "pyobj \<Rightarrow> bool" where
  "is_field (Obj f) = True"
| "is_field (Val v) = False"

definition stored_values :: "pyobj list \<Rightarrow> pyval list" where
  "stored_values ps = concat (map (\<lambda>p. case p of Obj f \<Rightarrow> [field_value f] | Val v \<Rightarrow> []) ps)"

text \<open>A dictionary whose records list only fields among their phones.\<close>

definition fields_only :: "dict \<Rightarrow> bool" where
  "fields_only d = list_all (\<lambda>kr. list_all is_field (phones (snd kr))) d"

text \<open>Two contacts that share a phone number, and the book that holds them.\<close>

definition bill :: record_obj where
  "bill =
     \<lparr>name = Obj \<lparr>ident = 1, cls = Name, field_value = PStr ''Bill''\<rparr>,
      phones = [Obj \<lparr>ident = 2, cls = Phone, field_value = PStr ''1234567890''\<rparr>,
                Obj \<lparr>ident = 3, cls = Phone, field_value = PStr ''+38(098)765-43-31''\<rparr>],
      birthday = Val PNone\<rparr>"

definition john :: record_obj where
  "john =
     \<lparr>name = Obj \<lparr>ident = 4, cls = Name, field_value = PStr ''John Doe''\<rparr>,
      phones = [Obj \<lparr>ident = 5, cls = Phone, field_value = PStr ''1234567890''\<rparr>],
      birthday = Obj \<lparr>ident = 6, cls = Birthday, field_value = PDatetime
        \<lparr>year = 1991, month = 8, day = 24, hour = 0, minute = 0, second = 0, microsecond = 0\<rparr>\<rparr>\<rparr>"

definition sample_book :: address_book where
  "sample_book = \<lparr>data = [(PStr ''Bill'', bill), (PStr ''John Doe'', john)], keys_iter = None\<rparr>"

text \<open>
  What a page shows in every case: a key and phone values that are strings, and a
  birthday that is left out or holds a date with a year of four digits.
\<close>

fun printable_phone :: "pyobj \<Rightarrow> bool" where
  "printable_phone (Obj f) = (case field_value f of PStr s \<Rightarrow> True | _ \<Rightarrow> False)"
| "printable_phone (Val v) = False"

fun printable_birthday :: "pyobj \<Rightarrow> bool" where
  "printable_birthday (Obj f) =
     (case field_value f of PDatetime d \<Rightarrow> 1000 \<le> year d \<and> year d \<le> 9999 | _ \<Rightarrow> False)"
| "printable_birthday (Val v) = (\<not> truthy v)"

definition printable_entry :: "pyval \<times> record_obj \<Rightarrow> bool" where
  "printable_entry kr =
     ((case fst kr of PStr s \<Rightarrow> True | _ \<Rightarrow> False) \<and>
      list_all printable_phone (phones (snd kr)) \<and>
      printable_birthday (birthday (snd kr)))"

definition printable :: "dict \<Rightarrow> bool" where
  "printable d = list_all printable_entry d"

text \<open>
  The layout of a page in words: lines of 70 dashes, a header row, and for each
  contact one row for each phone (one row with an empty phone column when there is no
  phone) and a line of dashes. The first row of a contact shows the name, left in 32
  columns after a space, and the birthday as DD.MM.YYYYp, centred in 13 columns; every
  row shows a phone, right in 19 columns.
\<close>

definition ljust :: "nat \<Rightarrow> string \<Rightarrow> string" where
  "ljust w s = s @ replicate (w - length s) (CHR '' '')"

definition rjust :: "nat \<Rightarrow> string \<Rightarrow> string" where
  "rjust w s = replicate (w - length s) (CHR '' '') @ s"

definition centred :: "nat \<Rightarrow> string \<Rightarrow> string" where
  "centred w s =
     replicate ((w - length s) div 2) (CHR '' '') @ s @
     replicate ((w - length s) - (w - length s) div 2) (CHR '' '')"

definition separator :: string where
  "separator = replicate 70 (CHR ''-'') @ [CHR 0x0A]"

definition header_row :: string where
  "header_row =
     ''|'' @ centred 33 ''User'' @ ''|'' @ centred 20 ''Phones'' @ ''|'' @
     centred 13 ''Birthday'' @ ''|'' @ [CHR 0x0A]"

definition first_row :: "string \<Rightarrow> string \<Rightarrow> string \<Rightarrow> string" where
  "first_row nm v bd =
     ''| '' @ ljust 32 nm @ ''|'' @ rjust 19 v @ '' |'' @ centred 13 bd @ ''|'' @ [CHR 0x0A]"

definition later_row :: "string \<Rightarrow> string" where
  "later_row v =
     ''|'' @ ljust 33 '' '' @ ''|'' @ rjust 19 v @ '' |'' @ centred 13 '' '' @ ''|'' @ [CHR 0x0A]"

fun contact_block :: "string \<times> string list \<times> string \<Rightarrow> string" where
  "contact_block (nm, [], bd) = first_row nm '' '' bd @ separator"
| "contact_block (nm, v # vs, bd) = first_row nm v bd @ concat (map later_row vs) @ separator"

definition page_text :: "(string \<times> string list \<times> string) list \<Rightarrow> string" where
  "page_text cs = separator @ header_row @ separator @ concat (map contact_block cs)"

definition digit :: "nat \<Rightarrow> char" where
  "digit n = ''0123456789'' ! (n mod 10)"

definition date_text :: "datetime \<Rightarrow> string" where
  "date_text d =
     [digit (day d div 10), digit (day d)] @ ''.'' @
     [digit (month d div 10), digit (month d)] @ ''.'' @
     [digit (year d div 1000), digit (year d div 100), digit (year d div 10), digit (year d)] @
     ''p''"

text \<open>What a page shows of an entry: the name, the phone values and the birthday.\<close>

fun str_of :: "pyval \<Rightarrow> string" where
  "str_of (PStr s) = s"
| "str_of _ = []"

fun birthday_view :: "pyobj \<Rightarrow> string" where
  "birthday_view (Obj f) = (case field_value f of PDatetime d \<Rightarrow> date_text d | _ \<Rightarrow> [])"
| "birthday_view (Val v) = []"

definition entry_view :: "pyval \<times> record_obj \<Rightarrow> string \<times> string list \<times> string" where
  "entry_view kr =
     (str_of (fst kr), map str_of (stored_values (phones (snd kr))), birthday_view (birthday (snd kr)))"





text \<open>A clock reading for the examples: noon on 15 June of the given year.\<close>

definition clock :: "nat \<Rightarrow> datetime" where
  "clock y = \<lparr>year = y, month = 6, day = 15, hour = 12, minute = 0, second = 0, microsecond = 0\<rparr>"

section \<open>Fields: properties\<close>

lemma cls_assign: "cls (assign f a) = cls f"
  by (auto simp: assign_def set_value_def split: sum.splits)

lemma cls_attempts: "cls (attempts c i as) = c"
proof -
  have "cls (foldl assign f as) = cls f" for f
    by (induction as arbitrary: f) (simp_all add: cls_assign)
  then show ?thesis by (simp add: attempts_def)
qed

lemma attempts_snoc: "attempts c i (as @ [a]) = assign (attempts c i as) a"
  by (simp add: attempts_def)

lemma field_value_assign:
  "field_value (assign f a) = (if accepted (cls f) a then snd a else field_value f)"
  by (auto simp: assign_def set_value_def accepted_def split: sum.splits)

lemma field_value_attempts: "field_value (attempts c i as) = last_accepted c as"
proof (induction as rule: rev_induct)
  case Nil
  show ?case by (simp add: attempts_def last_accepted_def)
next
  case (snoc a as)
  then show ?case
    by (simp add: attempts_snoc field_value_assign cls_attempts last_accepted_def)
qed

text \<open>
  Claim C5. An assignment whose value fails the validation of the field's class returns
  normally and leaves the field as it was; an assignment whose value passes stores the
  value. After any sequence of construction and assignment attempts the field holds the
  value of the last accepted attempt, so it holds \<open>None\<close> or a value that passed the
  validation when it was assigned.
\<close>

theorem field_holds_last_accepted_value:
  "(valid_value (cls f) now v = Inr False \<longrightarrow> set_value now f v = Inr f) \<and>
   (valid_value (cls f) now v = Inr True \<longrightarrow> set_value now f v = Inr (f\<lparr>field_value := v\<rparr>)) \<and>
   field_value (attempts c i as) = last_accepted c as \<and>
   (field_value (attempts c i as) = PNone \<or>
    (\<exists>a \<in> set as. field_value (attempts c i as) = snd a \<and> valid_value c (fst a) (snd a) = Inr True))"
proof -
  have held: "field_value (attempts c i as) = last_accepted c as"
    by (rule field_value_attempts)
  have "last_accepted c as = PNone \<or> (\<exists>a \<in> set as. last_accepted c as = snd a \<and> accepted c a)"
  proof (cases "filter (accepted c) (rev as)")
    case Nil
    then show ?thesis by (simp add: last_accepted_def)
  next
    case (Cons a rest)
    then have "a \<in> set (filter (accepted c) (rev as))" by simp
    then have "a \<in> set as" "accepted c a" by simp_all
    with Cons show ?thesis by (auto simp: last_accepted_def)
  qed
  with held show ?thesis
    by (simp add: set_value_def accepted_def)
qed

theorem field_holds_last_accepted_value_witness:
  "valid_value Name (clock 2023) PNone = Inr False \<and>
   set_value (clock 2023) \<lparr>ident = 1, cls = Name, field_value = PStr ''Bill''\<rparr> PNone
     = Inr \<lparr>ident = 1, cls = Name, field_value = PStr ''Bill''\<rparr> \<and>
   valid_value Name (clock 2023) (PStr ''Bob'') = Inr True \<and>
   set_value (clock 2023) \<lparr>ident = 1, cls = Name, field_value = PStr ''Bill''\<rparr> (PStr ''Bob'')
     = Inr \<lparr>ident = 1, cls = Name, field_value = PStr ''Bob''\<rparr> \<and>
   field_value (attempts Name 1
      [(clock 2023, PStr ''Bill''), (clock 2023, PStr []), (clock 2024, PStr ''Bob''), (clock 2024, PNone)])
     = PStr ''Bob''"
  using field_holds_last_accepted_value
          [of "\<lparr>ident = 1, cls = Name, field_value = PStr ''Bill''\<rparr>" "clock 2023" PNone Name 1
              "[(clock 2023, PStr ''Bill''), (clock 2023, PStr []), (clock 2024, PStr ''Bob''), (clock 2024, PNone)]"]
        field_holds_last_accepted_value
          [of "\<lparr>ident = 1, cls = Name, field_value = PStr ''Bill''\<rparr>" "clock 2023" "PStr ''Bob''" Name 1 "[]"]
  by (simp add: Field_valid_value_def last_accepted_def accepted_def)





section \<open>Records: properties\<close>

text \<open>
  Claim C1. On the birthday itself at noon (24 August 2023, for a birthday on 24 August
  1991) \<open>days_to_birthday\<close> returns 365: midnight of this year's birthday is already
  earlier than the clock reading, so the next year's date is taken.
\<close>

theorem days_to_birthday_on_birthday_at_noon:
  "(case Field_init Birthday 2
           \<lparr>year = 2023, month = 8, day = 24, hour = 12, minute = 0, second = 0, microsecond = 0\<rparr>
           (PDatetime \<lparr>year = 1991, month = 8, day = 24, hour = 0, minute = 0, second = 0, microsecond = 0\<rparr>) of
      Inl e \<Rightarrow> False
    | Inr b \<Rightarrow>
        field_value b = PDatetime \<lparr>year = 1991, month = 8, day = 24, hour = 0, minute = 0, second = 0, microsecond = 0\<rparr> \<and>
        days_to_birthday
          \<lparr>year = 2023, month = 8, day = 24, hour = 12, minute = 0, second = 0, microsecond = 0\<rparr>
          (Record_init (Obj \<lparr>ident = 1, cls = Name, field_value = PStr ''John Doe''\<rparr>) (Val PNone) (Obj b))
        = Inr (Some 365))"
  by (simp add: Field_init_def set_value_def Record_init_def days_to_birthday_def datetime_new_def
      days_in_month_def is_leap_def datetime_gt_def components_def timedelta_days_def
      to_microseconds_def toordinal_def days_before_year_def days_before_month_def upt_rec)

text \<open>
  Claim C2. \<open>Phone('123')\<close> holds no value, yet a record constructed with it has this
  phone in its list, while \<open>add_phone\<close> with the same object leaves a record as it was.
\<close>

theorem Record_init_keeps_invalid_phone:
  "(case Field_init Phone 2 now (PStr ''123'') of
      Inl e \<Rightarrow> False
    | Inr p \<Rightarrow>
        field_value p = PNone \<and>
        phones (Record_init (Obj \<lparr>ident = 1, cls = Name, field_value = PStr ''Bill''\<rparr>) (Obj p) (Val PNone)) = [Obj p] \<and>
        add_phone (Record_init (Obj \<lparr>ident = 1, cls = Name, field_value = PStr ''Bill''\<rparr>) (Val PNone) (Val PNone)) (Obj p)
          = Inr (Record_init (Obj \<lparr>ident = 1, cls = Name, field_value = PStr ''Bill''\<rparr>) (Val PNone) (Val PNone)))"
  by (simp add: Field_init_def set_value_def isdigit_def Record_init_def add_phone_def add_phone_body_def)

text \<open>
  Claim C3. With two stored phones of the value 1234567890, one after the other,
  \<open>remove_phone\<close> for that value removes the first and leaves the second in the list.
\<close>

theorem remove_phone_leaves_duplicate:
  "remove_phone
     \<lparr>name = Obj \<lparr>ident = 1, cls = Name, field_value = PStr ''Bill''\<rparr>,
        phones = [Obj \<lparr>ident = 2, cls = Phone, field_value = PStr ''1234567890''\<rparr>,
                  Obj \<lparr>ident = 3, cls = Phone, field_value = PStr ''1234567890''\<rparr>],
        birthday = Val PNone\<rparr>
     (Obj \<lparr>ident = 4, cls = Phone, field_value = PStr ''1234567890''\<rparr>)
   = Inr \<lparr>name = Obj \<lparr>ident = 1, cls = Name, field_value = PStr ''Bill''\<rparr>,
        phones = [Obj \<lparr>ident = 3, cls = Phone, field_value = PStr ''1234567890''\<rparr>],
        birthday = Val PNone\<rparr>"
  by (simp add: remove_phone_def remove_loop.simps)

lemma edit_loop_fields:
  "getattr_value old_phone = Inr v \<Longrightarrow> list_all is_field (drop idx xs) \<Longrightarrow>
   edit_loop old_phone new_phone idx xs =
     Inr (take idx xs @ map (\<lambda>p. if getattr_value p = Inr v then new_phone else p) (drop idx xs))"
proof (induction old_phone new_phone idx xs rule: edit_loop.induct)
  case (1 old_phone new_phone idx xs)
  note old = \<open>getattr_value old_phone = Inr v\<close>
  show ?case
  proof (cases "idx < length xs")
    case False
    then show ?thesis by (simp add: edit_loop.simps[of old_phone new_phone idx xs])
  next
    case True
    then have split: "drop idx xs = xs ! idx # drop (Suc idx) xs"
      by (simp add: Cons_nth_drop_Suc)
    with "1.prems" obtain f where f: "xs ! idx = Obj f" and rest: "list_all is_field (drop (Suc idx) xs)"
      by (cases "xs ! idx") auto
    show ?thesis
    proof (cases "v = field_value f")
      case True
      have "edit_loop old_phone new_phone idx xs = edit_loop old_phone new_phone (idx + 1) (xs[idx := new_phone])"
        using \<open>idx < length xs\<close> old f True
        by (simp add: edit_loop.simps[of old_phone new_phone idx xs])
      also have "\<dots> = Inr (take (idx + 1) (xs[idx := new_phone]) @
          map (\<lambda>p. if getattr_value p = Inr v then new_phone else p) (drop (idx + 1) (xs[idx := new_phone])))"
        using "1.IH"(1)[OF \<open>idx < length xs\<close> old _ True old] f rest by simp
      also have "take (idx + 1) (xs[idx := new_phone]) = take idx xs @ [new_phone]"
        using \<open>idx < length xs\<close> by (simp add: take_Suc_conv_app_nth)
      finally show ?thesis using split f True by simp
    next
      case False
      have "edit_loop old_phone new_phone idx xs = edit_loop old_phone new_phone (idx + 1) xs"
        using \<open>idx < length xs\<close> old f False
        by (simp add: edit_loop.simps[of old_phone new_phone idx xs])
      also have "\<dots> = Inr (take (idx + 1) xs @
          map (\<lambda>p. if getattr_value p = Inr v then new_phone else p) (drop (idx + 1) xs))"
        using "1.IH"(2)[OF \<open>idx < length xs\<close> old _ False old] f rest by simp
      also have "take (idx + 1) xs = take idx xs @ [xs ! idx]"
        using \<open>idx < length xs\<close> by (simp add: take_Suc_conv_app_nth)
      finally show ?thesis using split f False by auto
    qed
  qed
qed

text \<open>
  Claim C4, as the code has it. For a record whose phones are fields, \<open>edit_phone\<close> puts
  the new phone in the place of every stored phone whose value equals the old phone's
  value and keeps every other phone where it was; when no stored phone has that value
  the record is unchanged.
\<close>

theorem edit_phone_replaces_every_match:
  assumes "getattr_value old_phone = Inr v" and "list_all is_field (phones r)"
  shows "edit_phone r old_phone new_phone =
           Inr (r\<lparr>phones := map (\<lambda>p. if getattr_value p = Inr v then new_phone else p) (phones r)\<rparr>) \<and>
         ((\<forall>p \<in> set (phones r). getattr_value p \<noteq> Inr v) \<longrightarrow> edit_phone r old_phone new_phone = Inr r)"
proof -
  have eq: "edit_phone r old_phone new_phone =
           Inr (r\<lparr>phones := map (\<lambda>p. if getattr_value p = Inr v then new_phone else p) (phones r)\<rparr>)"
    using edit_loop_fields[OF assms(1), of 0 "phones r" new_phone] assms(2)
    by (simp add: edit_phone_def)
  have "map (\<lambda>p. if getattr_value p = Inr v then new_phone else p) (phones r) = phones r"
    if "\<forall>p \<in> set (phones r). getattr_value p \<noteq> Inr v"
    using that by (simp add: map_idI)
  with eq show ?thesis by simp
qed

theorem edit_phone_replaces_every_match_witness:
  "getattr_value (Obj \<lparr>ident = 7, cls = Phone, field_value = PStr ''+38(098)765-43-31''\<rparr>)
     = Inr (PStr ''+38(098)765-43-31'') \<and>
   list_all is_field (phones bill) \<and>
   edit_phone bill (Obj \<lparr>ident = 7, cls = Phone, field_value = PStr ''+38(098)765-43-31''\<rparr>)
       (Obj \<lparr>ident = 8, cls = Phone, field_value = PStr ''0987654321''\<rparr>)
     = Inr (bill\<lparr>phones := [Obj \<lparr>ident = 2, cls = Phone, field_value = PStr ''1234567890''\<rparr>,
                             Obj \<lparr>ident = 8, cls = Phone, field_value = PStr ''0987654321''\<rparr>]\<rparr>) \<and>
   edit_phone bill (Obj \<lparr>ident = 7, cls = Phone, field_value = PStr ''5555555555''\<rparr>)
       (Obj \<lparr>ident = 8, cls = Phone, field_value = PStr ''0987654321''\<rparr>)
     = Inr bill"
  using edit_phone_replaces_every_match
          [of "Obj \<lparr>ident = 7, cls = Phone, field_value = PStr ''+38(098)765-43-31''\<rparr>"
              "PStr ''+38(098)765-43-31''" bill
              "Obj \<lparr>ident = 8, cls = Phone, field_value = PStr ''0987654321''\<rparr>"]
        edit_phone_replaces_every_match
          [of "Obj \<lparr>ident = 7, cls = Phone, field_value = PStr ''5555555555''\<rparr>"
              "PStr ''5555555555''" bill
              "Obj \<lparr>ident = 8, cls = Phone, field_value = PStr ''0987654321''\<rparr>"]
  by (simp add: bill_def)

text \<open>
  Claim C4 as stated fails: with two stored phones of the value 1234567890,
  \<open>edit_phone\<close> replaces the second as well as the first.
\<close>

theorem edit_phone_changes_later_match:
  "edit_phone
     \<lparr>name = Obj \<lparr>ident = 1, cls = Name, field_value = PStr ''Bill''\<rparr>,
        phones = [Obj \<lparr>ident = 2, cls = Phone, field_value = PStr ''1234567890''\<rparr>,
                  Obj \<lparr>ident = 3, cls = Phone, field_value = PStr ''1234567890''\<rparr>],
        birthday = Val PNone\<rparr>
     (Obj \<lparr>ident = 4, cls = Phone, field_value = PStr ''1234567890''\<rparr>)
     (Obj \<lparr>ident = 5, cls = Phone, field_value = PStr ''0987654321''\<rparr>)
   = Inr \<lparr>name = Obj \<lparr>ident = 1, cls = Name, field_value = PStr ''Bill''\<rparr>,
        phones = [Obj \<lparr>ident = 5, cls = Phone, field_value = PStr ''0987654321''\<rparr>,
                  Obj \<lparr>ident = 5, cls = Phone, field_value = PStr ''0987654321''\<rparr>],
        birthday = Val PNone\<rparr>"
  by (simp add: edit_phone_def edit_loop.simps)

text \<open>
  Claim C10. \<open>add_phone\<close> with an argument that has no \<open>value\<close> attribute returns the
  record unchanged, as it does with a field that holds no value, and it raises for no
  argument at all.
\<close>

theorem add_phone_non_field_is_noop:
  "add_phone r (Val v) = Inr r \<and>
   add_phone r (Obj (f\<lparr>field_value := PNone\<rparr>)) = Inr r \<and>
   (\<exists>r'. add_phone r p = Inr r')"
proof -
  have "\<exists>r'. add_phone r p = Inr r'"
    by (cases p) (simp_all add: add_phone_def add_phone_body_def)
  then show ?thesis
    by (simp add: add_phone_def add_phone_body_def)
qed

text \<open>
  Claim C8. Two public operations raise: \<open>Phone(None)\<close> raises \<open>TypeError\<close>, and
  \<open>days_to_birthday\<close> raises \<open>ValueError\<close> on 1 March 2023 for a birthday on 29
  February 2000, which \<open>Birthday\<close> accepts.
\<close>

theorem uncaught_exceptions:
  "Field_init Phone 1 now PNone = Inl TypeError \<and>
   (case Field_init Birthday 2
           \<lparr>year = 2023, month = 3, day = 1, hour = 9, minute = 30, second = 0, microsecond = 0\<rparr>
           (PDatetime \<lparr>year = 2000, month = 2, day = 29, hour = 0, minute = 0, second = 0, microsecond = 0\<rparr>) of
      Inl e \<Rightarrow> False
    | Inr b \<Rightarrow>
        field_value b = PDatetime \<lparr>year = 2000, month = 2, day = 29, hour = 0, minute = 0, second = 0, microsecond = 0\<rparr> \<and>
        days_to_birthday
          \<lparr>year = 2023, month = 3, day = 1, hour = 9, minute = 30, second = 0, microsecond = 0\<rparr>
          (Record_init (Obj \<lparr>ident = 1, cls = Name, field_value = PStr ''John Doe''\<rparr>) (Val PNone) (Obj b))
        = Inl ValueError)"
  by (simp add: Field_init_def set_value_def Record_init_def days_to_birthday_def datetime_new_def
      days_in_month_def is_leap_def)

section \<open>The address book: properties\<close>

subsection \<open>Search\<close>

lemma keys_dict_setitem:
  "map fst (dict_setitem d k r) = (if k \<in> set (map fst d) then map fst d else map fst d @ [k])"
proof -
  have "map fst (map (\<lambda>kv. if fst kv = k then (k, r) else kv) d) = map fst d"
    by (induction d) simp_all
  then show ?thesis by (simp add: dict_setitem_def)
qed

text \<open>\<open>add_record\<close> keeps one entry for each key.\<close>

lemma distinct_dict_setitem:
  "distinct (map fst d) \<Longrightarrow> distinct (map fst (dict_setitem d k r))"
  by (simp add: keys_dict_setitem)

lemma distinct_add_record:
  "distinct (map fst (data ab)) \<Longrightarrow> add_record ab r = Inr ab' \<Longrightarrow> distinct (map fst (data ab'))"
  using distinct_dict_setitem[of "data ab"]
  by (cases "getattr_value (name r)") (auto simp: add_record_def)

lemma stored_values_simps [simp]:
  "stored_values [] = []"
  "stored_values (Obj f # ps) = field_value f # stored_values ps"
  "stored_values (Val v # ps) = stored_values ps"
  by (simp_all add: stored_values_def)

lemma values_of_fields: "list_all is_field ps \<Longrightarrow> values_of ps = Inr (stored_values ps)"
proof (induction ps)
  case Nil
  show ?case by simp
next
  case (Cons p ps)
  then show ?case by (cases p) simp_all
qed

lemma find_snoc:
  "find P (xs @ [x]) = (case find P xs of None \<Rightarrow> (if P x then Some x else None) | Some y \<Rightarrow> Some y)"
  by (induction xs) simp_all

lemma search_by_name_last:
  "fields_only d \<Longrightarrow>
   search_by_name v d results =
     Inr (case find (\<lambda>kr. fst kr = v) (rev d) of
            None \<Rightarrow> results
          | Some kr \<Rightarrow> Some (PhoneValues (stored_values (phones (snd kr)))))"
proof (induction d arbitrary: results)
  case Nil
  show ?case by simp
next
  case (Cons kr d)
  obtain k r where kr: "kr = (k, r)" by (cases kr)
  from Cons.prems have d: "fields_only d" and r: "list_all is_field (phones r)"
    by (simp_all add: fields_only_def kr)
  show ?case
    using Cons.IH[OF d] values_of_fields[OF r]
    by (auto simp: kr find_snoc split: option.splits)
qed

lemma find_rev_distinct:
  "distinct (map fst d) \<Longrightarrow> map_option snd (find (\<lambda>kr. fst kr = v) (rev d)) = map_of d v"
proof (induction d)
  case Nil
  show ?case by simp
next
  case (Cons kr d)
  obtain k r where kr: "kr = (k, r)" by (cases kr)
  from Cons.prems have fresh: "k \<notin> fst ` set d" and dist: "distinct (map fst d)"
    by (simp_all add: kr)
  have none: "find (\<lambda>kr. fst kr = k) (rev d) = None"
    using fresh by (force simp: find_None_iff)
  show ?case
    using Cons.IH[OF dist] none
    by (auto simp: kr find_snoc split: option.splits)
qed

lemma scan_phones_fields:
  "list_all is_field ps \<Longrightarrow>
   scan_phones v k ps results =
     Inr (if v \<in> set (stored_values ps) then Some (ContactName k) else results)"
proof (induction ps arbitrary: results)
  case Nil
  show ?case by simp
next
  case (Cons p ps)
  then show ?case by (cases p) auto
qed

lemma search_by_phone_last:
  "fields_only d \<Longrightarrow>
   search_by_phone v d results =
     Inr (case find (\<lambda>kr. v \<in> set (stored_values (phones (snd kr)))) (rev d) of
            None \<Rightarrow> results
          | Some kr \<Rightarrow> Some (ContactName (fst kr)))"
proof (induction d arbitrary: results)
  case Nil
  show ?case by simp
next
  case (Cons kr d)
  obtain k r where kr: "kr = (k, r)" by (cases kr)
  from Cons.prems have d: "fields_only d" and r: "list_all is_field (phones r)"
    by (simp_all add: fields_only_def kr)
  show ?case
    using Cons.IH[OF d] scan_phones_fields[OF r]
    by (auto simp: kr find_snoc split: option.splits)
qed

text \<open>
  Claim C7. In a book with one entry for each key whose records list fields as phones:
  a search with a \<open>Name\<close> returns the values of the phones, in their order, of the
  record under the key equal to the name's value, and \<open>None\<close> when there is no such
  key; a search with a \<open>Phone\<close> returns the key of the last record, in the order of
  the dictionary, that stores a phone of equal value, and \<open>None\<close> when there is none; a
  search with anything else returns \<open>None\<close>.
\<close>

theorem search_by_name_or_phone:
  assumes "distinct (map fst (data ab))" and "fields_only (data ab)"
  shows "(cls q = Name \<longrightarrow>
            search ab (Obj q) =
              Inr (map_option (\<lambda>r. PhoneValues (stored_values (phones r)))
                     (map_of (data ab) (field_value q)))) \<and>
         (cls q = Phone \<longrightarrow>
            search ab (Obj q) =
              Inr (map_option (\<lambda>kr. ContactName (fst kr))
                     (find (\<lambda>kr. field_value q \<in> set (stored_values (phones (snd kr))))
                        (rev (data ab))))) \<and>
         (cls q \<noteq> Name \<and> cls q \<noteq> Phone \<longrightarrow> search ab (Obj q) = Inr None) \<and>
         search ab (Val v) = Inr None"
proof -
  have by_name: "search_by_name (field_value q) (data ab) None =
      Inr (map_option (\<lambda>r. PhoneValues (stored_values (phones r))) (map_of (data ab) (field_value q)))"
    unfolding find_rev_distinct[OF assms(1), symmetric] search_by_name_last[OF assms(2)]
    by (simp split: option.splits)
  have by_phone: "search_by_phone (field_value q) (data ab) None =
      Inr (map_option (\<lambda>kr. ContactName (fst kr))
             (find (\<lambda>kr. field_value q \<in> set (stored_values (phones (snd kr)))) (rev (data ab))))"
    using search_by_phone_last[OF assms(2), of "field_value q" None]
    by (auto split: option.splits)
  show ?thesis
    using by_name by_phone by (simp add: search_def)
qed

theorem search_by_name_or_phone_witness:
  "distinct (map fst (data sample_book)) \<and> fields_only (data sample_book) \<and>
   search sample_book (Obj \<lparr>ident = 7, cls = Name, field_value = PStr ''Bill''\<rparr>)
     = Inr (Some (PhoneValues [PStr ''1234567890'', PStr ''+38(098)765-43-31''])) \<and>
   search sample_book (Obj \<lparr>ident = 7, cls = Name, field_value = PStr ''Bob''\<rparr>) = Inr None \<and>
   search sample_book (Obj \<lparr>ident = 8, cls = Phone, field_value = PStr ''1234567890''\<rparr>)
     = Inr (Some (ContactName (PStr ''John Doe''))) \<and>
   search sample_book (Obj \<lparr>ident = 8, cls = Phone, field_value = PStr ''5555555555''\<rparr>) = Inr None \<and>
   search sample_book (Obj \<lparr>ident = 9, cls = Field, field_value = PStr ''Bill''\<rparr>) = Inr None \<and>
   search sample_book (Val (PStr ''Bill'')) = Inr None"
  using search_by_name_or_phone
          [of sample_book "\<lparr>ident = 7, cls = Name, field_value = PStr ''Bill''\<rparr>" "PStr ''Bill''"]
        search_by_name_or_phone
          [of sample_book "\<lparr>ident = 7, cls = Name, field_value = PStr ''Bob''\<rparr>" "PStr ''Bill''"]
        search_by_name_or_phone
          [of sample_book "\<lparr>ident = 8, cls = Phone, field_value = PStr ''1234567890''\<rparr>" "PStr ''Bill''"]
        search_by_name_or_phone
          [of sample_book "\<lparr>ident = 8, cls = Phone, field_value = PStr ''5555555555''\<rparr>" "PStr ''Bill''"]
        search_by_name_or_phone
          [of sample_book "\<lparr>ident = 9, cls = Field, field_value = PStr ''Bill''\<rparr>" "PStr ''Bill''"]
  by (simp add: sample_book_def bill_def john_def fields_only_def)

subsection \<open>Pages\<close>

text \<open>The loop of \<open>__next__\<close> on a book with one entry for each key.\<close>

lemma getitem_at:
  "distinct (map fst d) \<Longrightarrow> pos < length d \<Longrightarrow> map_of d (fst (d ! pos)) = Some (snd (d ! pos))"
  using map_of_is_SomeI[of d "fst (d ! pos)" "snd (d ! pos)"] by simp

lemma take_keys_step:
  assumes "distinct (map fst d)" and "pos < length d"
  shows "take_keys (Suc n) d (Some (Iterating (length d) pos)) items =
           take_keys n d (Some (Iterating (length d) (Suc pos))) (items @ [d ! pos])"
proof -
  have "map_of d (fst (d ! pos)) = Some (snd (d ! pos))"
    by (rule getitem_at[OF assms])
  then show ?thesis using assms(2) by simp
qed


lemma take_keys_short:
  "distinct (map fst d) \<Longrightarrow> pos \<le> length d \<Longrightarrow> length d < pos + n \<Longrightarrow>
   take_keys n d (Some (Iterating (length d) pos)) items =
     (Some StopIteration, items @ drop pos d, Some Finished)"
proof (induction n arbitrary: pos items)
  case 0
  then show ?case by simp
next
  case (Suc n)
  show ?case
  proof (cases "pos < length d")
    case False
    with Suc.prems show ?thesis by simp
  next
    case True
    have parts: "drop pos d = d ! pos # drop (Suc pos) d"
      using True by (simp add: Cons_nth_drop_Suc)
    have "take_keys (Suc n) d (Some (Iterating (length d) pos)) items =
            take_keys n d (Some (Iterating (length d) (Suc pos))) (items @ [d ! pos])"
      by (rule take_keys_step[OF Suc.prems(1) True])
    also have "\<dots> = (Some StopIteration, (items @ [d ! pos]) @ drop (Suc pos) d, Some Finished)"
      using Suc.prems True by (intro Suc.IH) simp_all
    finally show ?thesis by (simp add: parts)
  qed
qed

lemma take_keys_finished:
  "0 < n \<Longrightarrow> take_keys n d (Some Finished) items = (Some StopIteration, items, Some Finished)"
  by (cases n) simp_all




lemma dunder_next_last_page:
  assumes "distinct (map fst (data ab))"
    and "keys_iter ab = Some (Iterating (length (data ab)) pos)"
    and "pos < length (data ab)" and "length (data ab) < pos + nat n"
  shows "dunder_next n ab = (format_page (drop pos (data ab)), ab\<lparr>keys_iter := Some Finished\<rparr>)"
  using take_keys_short[OF assms(1) _ assms(4), of "[]"] assms(2) assms(3)
  by (simp add: dunder_next_def)

text \<open>
  Formatting a page of printable records gives the layout described in words: the
  rows of the templates, the rows of one contact, the birthday, and the page.
\<close>

lemma py_format_str:
  "py_format AlignLeft w (PStr s) = Inr (ljust w s)"
  "py_format AlignRight w (PStr s) = Inr (rjust w s)"
  "py_format AlignCenter w (PStr s) = Inr (centred w s)"
  by (simp_all add: align_str_def ljust_def rjust_def centred_def Let_def)

lemma header_format:
  "str_format header_template [PStr ''User'', PStr ''Phones'', PStr ''Birthday''] = Inr header_row"
  by (simp add: header_template_def header_row_def newline_def py_format_str del: py_format.simps)

lemma first_row_format:
  "str_format first_row_template [PStr nm, PStr v, PStr bd] = Inr (first_row nm v bd)"
  by (simp add: first_row_template_def first_row_def newline_def py_format_str del: py_format.simps)

lemma other_row_format:
  "str_format other_row_template [PStr '' '', PStr v, PStr '' ''] = Inr (later_row v)"
  by (simp add: other_row_template_def later_row_def newline_def py_format_str del: py_format.simps)

lemma phone_rows_later:
  "list_all printable_phone ps \<Longrightarrow> 0 < i \<Longrightarrow>
   phone_rows nm bd i ps = Inr (concat (map later_row (map str_of (stored_values ps))))"
proof (induction ps arbitrary: i)
  case Nil
  show ?case by simp
next
  case (Cons p ps)
  from Cons.prems(1) obtain f s where p: "p = Obj f" and v: "field_value f = PStr s"
    by (cases p) (auto split: pyval.splits)
  have rest: "phone_rows nm bd (i + 1) ps = Inr (concat (map later_row (map str_of (stored_values ps))))"
    using Cons.prems(1) by (intro Cons.IH) simp_all
  show ?case
    using Cons.prems(2) rest by (simp add: p v other_row_format)
qed

lemma phone_rows_view:
  assumes "list_all printable_phone ps"
  shows "(case phone_rows (PStr nm) bd 0 ps of
            Inl e \<Rightarrow> False
          | Inr rows \<Rightarrow>
              rows @ (if ps = [] then first_row nm '' '' bd else []) @ separator =
              contact_block (nm, map str_of (stored_values ps), bd))"
proof (cases ps)
  case Nil
  then show ?thesis by simp
next
  case (Cons p qs)
  from assms Cons obtain f s where p: "p = Obj f" and v: "field_value f = PStr s"
    by (cases p) (auto split: pyval.splits)
  have "phone_rows (PStr nm) bd (0 + 1) qs = Inr (concat (map later_row (map str_of (stored_values qs))))"
    using assms Cons by (intro phone_rows_later) simp_all
  then show ?thesis
    by (simp add: Cons p v first_row_format)
qed

lemma decimal_four_digits:
  assumes "1000 \<le> y" and "y \<le> 9999"
  shows "decimal y = [digit (y div 1000), digit (y div 100), digit (y div 10), digit y]"
proof -
  have big: "\<not> y < 10" "\<not> y div 10 < 10" "\<not> y div 100 < 10" and small: "y div 1000 < 10"
    using assms by simp_all
  have nest: "y div 10 div 10 = y div 100" "y div 100 div 10 = y div 1000"
    by (simp_all add: div_mult2_eq[symmetric])
  have a: "decimal y = decimal (y div 10) @ [digit y]"
    using big(1) by (simp add: decimal.simps[of y] digit_def)
  have b: "decimal (y div 10) = decimal (y div 100) @ [digit (y div 10)]"
    using big(2) by (simp add: decimal.simps[of "y div 10"] digit_def nest)
  have c: "decimal (y div 100) = decimal (y div 1000) @ [digit (y div 100)]"
    using big(3) by (simp add: decimal.simps[of "y div 100"] digit_def nest)
  have d: "decimal (y div 1000) = [digit (y div 1000)]"
    using small by (simp add: decimal.simps[of "y div 1000"] digit_def)
  show ?thesis by (simp add: a b c d)
qed

lemma birthday_text_view:
  "printable_birthday (birthday r) \<Longrightarrow> birthday_text r = Inr (birthday_view (birthday r))"
proof (cases "birthday r")
  case (Obj f)
  assume "printable_birthday (birthday r)"
  with Obj obtain d where d: "field_value f = PDatetime d" and y: "1000 \<le> year d" "year d \<le> 9999"
    by (auto split: pyval.splits)
  show ?thesis
    by (simp add: birthday_text_def Obj d decimal_four_digits[OF y] date_text_def two_digits_def digit_def)
next
  case (Val v)
  assume "printable_birthday (birthday r)"
  with Val show ?thesis by (simp add: birthday_text_def)
qed

lemma format_items_view:
  "printable items \<Longrightarrow> format_items items = Inr (concat (map (\<lambda>kr. contact_block (entry_view kr)) items))"
proof (induction items)
  case Nil
  show ?case by simp
next
  case (Cons kr items)
  obtain k r where kr: "kr = (k, r)" by (cases kr)
  from Cons.prems obtain nm where k: "k = PStr nm"
    by (cases k) (simp_all add: printable_def printable_entry_def kr)
  from Cons.prems have ps: "list_all printable_phone (phones r)"
    and b: "printable_birthday (birthday r)" and rest: "printable items"
    by (simp_all add: printable_def printable_entry_def kr)
  define bd where "bd = birthday_view (birthday r)"
  have bt: "birthday_text r = Inr bd"
    using birthday_text_view[OF b] by (simp add: bd_def)
  obtain rows where rows: "phone_rows (PStr nm) bd 0 (phones r) = Inr rows"
    and block: "rows @ (if phones r = [] then first_row nm '' '' bd else []) @ separator =
                contact_block (nm, map str_of (stored_values (phones r)), bd)"
    using phone_rows_view[OF ps, of nm bd] by (auto split: sum.splits)
  have view: "entry_view (PStr nm, r) = (nm, map str_of (stored_values (phones r)), bd)"
    by (simp add: entry_view_def bd_def)
  have sep: "rule_line = separator"
    by (simp add: rule_line_def separator_def newline_def)
  show ?case
  proof (cases "phones r = []")
    case True
    with block rows show ?thesis
      using Cons.IH[OF rest] by (simp add: kr k bt first_row_format view sep)
  next
    case False
    with block rows show ?thesis
      using Cons.IH[OF rest] by (simp add: kr k bt view sep)
  qed
qed

lemma format_page_view:
  "printable items \<Longrightarrow> format_page items = Inr (page_text (map entry_view items))"
  by (simp add: format_page_def header_format format_items_view page_text_def
      rule_line_def separator_def newline_def comp_def)

text \<open>
  A page size that is not positive is not a page request in the sense of the claim
  below: the loop body never runs, nothing is asked of the iterator, and the call
  returns the header alone.
\<close>

lemma dunder_next_nonpositive: "n \<le> 0 \<Longrightarrow> dunder_next n ab = (format_page [], ab)"
  by (simp add: dunder_next_def)




text \<open>The page of the book with the two sample contacts, as it is printed.\<close>

lemma replicate_numeral: "replicate (numeral k) x = x # replicate (numeral k - 1) x"
  by (simp add: numeral_eq_Suc)

lemma printable_sample_book: "printable (data sample_book)"
  by (simp add: sample_book_def bill_def john_def printable_def printable_entry_def)

lemma page_of_sample_book:
  "fst (dunder_next N (dunder_iter sample_book)) =
     Inr (replicate 70 (CHR ''-'') @ [CHR 0x0A] @
          ''|              User               |       Phones       |  Birthday   |'' @ [CHR 0x0A] @
          replicate 70 (CHR ''-'') @ [CHR 0x0A] @
          ''| Bill                            |         1234567890 |             |'' @ [CHR 0x0A] @
          ''|                                 |  +38(098)765-43-31 |             |'' @ [CHR 0x0A] @
          replicate 70 (CHR ''-'') @ [CHR 0x0A] @
          ''| John Doe                        |         1234567890 | 24.08.1991p |'' @ [CHR 0x0A] @
          replicate 70 (CHR ''-'') @ [CHR 0x0A])"
proof -
  have "dunder_next N (dunder_iter sample_book) =
          (format_page (drop 0 (data (dunder_iter sample_book))),
           (dunder_iter sample_book)\<lparr>keys_iter := Some Finished\<rparr>)"
    by (intro dunder_next_last_page)
       (simp_all add: dunder_iter_def sample_book_def N_def bill_def john_def)
  then have "fst (dunder_next N (dunder_iter sample_book)) =
          Inr (page_text (map entry_view (data sample_book)))"
    using format_page_view[OF printable_sample_book] by (simp add: dunder_iter_def)
  also have "page_text (map entry_view (data sample_book)) =
          replicate 70 (CHR ''-'') @ [CHR 0x0A] @
          ''|              User               |       Phones       |  Birthday   |'' @ [CHR 0x0A] @
          replicate 70 (CHR ''-'') @ [CHR 0x0A] @
          ''| Bill                            |         1234567890 |             |'' @ [CHR 0x0A] @
          ''|                                 |  +38(098)765-43-31 |             |'' @ [CHR 0x0A] @
          replicate 70 (CHR ''-'') @ [CHR 0x0A] @
          ''| John Doe                        |         1234567890 | 24.08.1991p |'' @ [CHR 0x0A] @
          replicate 70 (CHR ''-'') @ [CHR 0x0A]"
    by (simp add: sample_book_def bill_def john_def page_text_def entry_view_def
        separator_def header_row_def first_row_def later_row_def ljust_def rjust_def centred_def
        date_text_def digit_def replicate_numeral)
  finally show ?thesis .
qed

end
